theory Spec2Isabelle
  imports Main
begin

section \<open>Python string primitives\<close>

text \<open>
  Strings are lists of characters. The case, space, digit and word classes below are the
  ASCII part of Python's \<^verbatim>\<open>str\<close> methods and of the \<^verbatim>\<open>re\<close> classes
  \<^verbatim>\<open>\d\<close> and \<^verbatim>\<open>\w\<close>: a character outside ASCII is treated as caseless, and
  as neither space, digit nor word character.
\<close>

definition isupper_c :: "char \<Rightarrow> bool" where
  "isupper_c c = (65 \<le> (of_char c :: nat) \<and> (of_char c :: nat) \<le> 90)"

definition islower_c :: "char \<Rightarrow> bool" where
  "islower_c c = (97 \<le> (of_char c :: nat) \<and> (of_char c :: nat) \<le> 122)"

definition iscased_c :: "char \<Rightarrow> bool" where
  "iscased_c c = (isupper_c c \<or> islower_c c)"

definition isdigit_c :: "char \<Rightarrow> bool" where
  "isdigit_c c = (48 \<le> (of_char c :: nat) \<and> (of_char c :: nat) \<le> 57)"

definition isword_c :: "char \<Rightarrow> bool" where
  \<comment> \<open>the class \<^verbatim>\<open>\w\<close>: letters, digits and the underscore\<close>
  "isword_c c = (iscased_c c \<or> isdigit_c c \<or> c = CHR ''_'')"

definition isspace_c :: "char \<Rightarrow> bool" where
  \<comment> \<open>\<^verbatim>\<open>str.isspace\<close>: tab, LF, VT, FF, CR, the separators 28 to 31, and the space\<close>
  "isspace_c c = ((9 \<le> (of_char c :: nat) \<and> (of_char c :: nat) \<le> 13)
                \<or> (28 \<le> (of_char c :: nat) \<and> (of_char c :: nat) \<le> 32))"

definition lower_c :: "char \<Rightarrow> char" where
  "lower_c c = (if isupper_c c then char_of ((of_char c :: nat) + 32) else c)"

definition upper_c :: "char \<Rightarrow> char" where
  "upper_c c = (if islower_c c then char_of ((of_char c :: nat) - 32) else c)"

definition str_lower :: "string \<Rightarrow> string" where
  "str_lower s = map lower_c s"

text \<open>
  \<^verbatim>\<open>str.title()\<close>: one pass with the flag "the previous character is cased"; a character
  after a cased one is lower-cased, any other is upper-cased.
\<close>

fun title_from :: "bool \<Rightarrow> string \<Rightarrow> string" where
  "title_from prev [] = []"
| "title_from prev (c # cs) =
     (if prev then lower_c c else upper_c c) # title_from (iscased_c c) cs"

definition str_title :: "string \<Rightarrow> string" where
  "str_title s = title_from False s"

text \<open>\<^verbatim>\<open>str.strip()\<close> removes the white space at both ends.\<close>

definition str_strip :: "string \<Rightarrow> string" where
  "str_strip s = rev (dropWhile isspace_c (rev (dropWhile isspace_c s)))"

text \<open>
  \<^verbatim>\<open>str.split()\<close> with no argument: the maximal runs of characters that are not white
  space, in order; never an empty string.
\<close>

function str_split :: "string \<Rightarrow> string list" where
  "str_split s =
     (case dropWhile isspace_c s of
        [] \<Rightarrow> []
      | c # cs \<Rightarrow> takeWhile (\<lambda>x. \<not> isspace_c x) (c # cs)
                 # str_split (dropWhile (\<lambda>x. \<not> isspace_c x) cs))"
  by pat_completeness auto
termination
proof (relation "measure length")
  show "wf (measure length)" by simp
next
  fix s :: string and c cs
  assume "dropWhile isspace_c s = c # cs"
  then have "length (c # cs) \<le> length s"
    by (metis length_dropWhile_le)
  moreover have "length (dropWhile (\<lambda>x. \<not> isspace_c x) cs) \<le> length cs"
    by (rule length_dropWhile_le)
  ultimately show "(dropWhile (\<lambda>x. \<not> isspace_c x) cs, s) \<in> measure length"
    by simp
qed

declare str_split.simps [simp del]

text \<open>\<^verbatim>\<open>str.split(d)\<close> with a one-character separator keeps empty pieces.\<close>

fun split_on :: "char \<Rightarrow> string \<Rightarrow> string list" where
  "split_on d [] = [[]]"
| "split_on d (c # cs) =
     (if c = d then [] # split_on d cs
      else (case split_on d cs of
              [] \<Rightarrow> [[c]]
            | w # ws \<Rightarrow> (c # w) # ws))"

text \<open>\<^verbatim>\<open>sep.join(ws)\<close>.\<close>

fun str_join :: "string \<Rightarrow> string list \<Rightarrow> string" where
  "str_join sep [] = []"
| "str_join sep [w] = w"
| "str_join sep (w # v # ws) = w @ sep @ str_join sep (v # ws)"

section \<open>The fixed tables of \<^verbatim>\<open>chatbot_query.py\<close>\<close>

definition OUTLET_CATEGORIES :: "(string \<times> string list) list" where
  \<comment> \<open>the dictionary, as its items in insertion order\<close>
  "OUTLET_CATEGORIES =
    [(''24 Hours'', [''24 hours'', ''open all day'', ''always open'']),
     (''Birthday Party'', [''birthday party'', ''kids party'', ''celebration'']),
     (''Breakfast'', [''breakfast'', ''morning menu'', ''breakfast hours'']),
     (''Cashless Facility'', [''cashless'', ''no cash'', ''digital payment'']),
     (''Dessert Center'', [''dessert'', ''sweets'', ''ice cream'']),
     (''Drive-Thru'', [''drive-thru'', ''drive through'', ''car pickup'']),
     (''McCafe'', [''mccafe'', ''cafe'', ''coffee'']),
     (''McDelivery'', [''mcdelivery'', ''home delivery'', ''food delivery'']),
     (''Surau'', [''surau'', ''prayer room'', ''mosque, masjid'']),
     (''WiFi'', [''wifi'', ''internet'', ''free wifi'']),
     (''Digital Order Kiosk'', [''digital kiosk'', ''self-service kiosk'', ''order kiosk'']),
     (''Electric Vehicle'', [''electric vehicle'', ''ev charging'', ''charging station''])]"

definition STREET_PREFIXES :: "string list" where
  "STREET_PREFIXES =
    [''jalan'', ''jl'', ''st'', ''street'', ''persiaran'', ''lorong'', ''lebuhraya'',
     ''avenue'', ''ave'']"

section \<open>The store\<close>

text \<open>
  The two tables the queries read. The schema is not part of the sources; the columns are
  the ones the queries and the formatter name, all taken as \<^verbatim>\<open>NOT NULL\<close>. A table is
  the list of its rows in the order a scan returns them.
\<close>

record outlet =
  id_col :: int
  name :: string
  address :: string

record category_row =
  outlet_id :: int
  category :: string

record db =
  outlets :: "outlet list"
  categories :: "category_row list"

text \<open>
  SQLite's \<^verbatim>\<open>LOWER\<close> folds ASCII letters only, as \<^const>\<open>str_lower\<close> does here. Its
  \<^verbatim>\<open>LIKE\<close> compares ASCII letters without case; in the pattern \<^verbatim>\<open>%\<close> stands for any
  run of characters and \<^verbatim>\<open>_\<close> for any one character.
\<close>

function sql_like :: "string \<Rightarrow> string \<Rightarrow> bool" where
  "sql_like [] s = (s = [])"
| "sql_like (p # ps) [] = (p = CHR ''%'' \<and> sql_like ps [])"
| "sql_like (p # ps) (c # cs) =
     (if p = CHR ''%'' then sql_like ps (c # cs) \<or> sql_like (p # ps) cs
      else (p = CHR ''_'' \<or> lower_c p = lower_c c) \<and> sql_like ps cs)"
  by pat_completeness auto
termination
  by (relation "measure (\<lambda>(p, s). length p + length s)") auto

section \<open>The Location Vocabulary Builder\<close>

text \<open>
  \<^verbatim>\<open>re.sub(r"\b\d{5}\b", "", address)\<close>: a scan from the left that deletes each match and
  goes on behind it. \<open>digits_then_boundary n s\<close> says that \<^verbatim>\<open>\d{n}\b\<close> matches at the
  start of \<open>s\<close> when a word character stands before \<open>s\<close> (after a digit, \<^verbatim>\<open>\b\<close>
  asks for the end of the string or a character that is no word character). The flag of
  \<open>remove_postal\<close> says that the character before the current position is a word
  character, so that \<^verbatim>\<open>\b\<close> holds before a digit exactly when the flag is off.
\<close>

fun digits_then_boundary :: "nat \<Rightarrow> string \<Rightarrow> bool" where
  "digits_then_boundary 0 s = (case s of [] \<Rightarrow> True | c # _ \<Rightarrow> \<not> isword_c c)"
| "digits_then_boundary (Suc n) s =
     (case s of [] \<Rightarrow> False | c # cs \<Rightarrow> isdigit_c c \<and> digits_then_boundary n cs)"

definition postal_at :: "string \<Rightarrow> bool" where
  "postal_at s = digits_then_boundary 5 s"

fun remove_postal :: "bool \<Rightarrow> string \<Rightarrow> string" where
  "remove_postal prev [] = []"
| "remove_postal prev (c # cs) =
     (if \<not> prev \<and> postal_at (c # cs) then remove_postal True (drop 4 cs)
      else c # remove_postal (isword_c c) cs)"

text \<open>
  A Python \<^verbatim>\<open>set\<close> of strings is kept as a duplicate-free list in insertion order.
  Python fixes no order for \<^verbatim>\<open>list(locations)\<close>; the order matters only for ties in
  the Location Matcher.
\<close>

definition set_add :: "'a \<Rightarrow> 'a list \<Rightarrow> 'a list" where
  "set_add x xs = (if x \<in> set xs then xs else xs @ [x])"

definition clean_part :: "string \<Rightarrow> string" where
  \<comment> \<open>lines 45 to 49: the words of the lower-cased part that are no street prefix\<close>
  "clean_part part =
     str_strip (str_join '' '' (filter (\<lambda>word. word \<notin> set STREET_PREFIXES)
                                       (str_split (str_lower part))))"

definition add_part :: "string \<Rightarrow> string list \<Rightarrow> string list" where
  \<comment> \<open>the body of the inner loop\<close>
  "add_part part locations =
     (let cleaned_part = clean_part part
      in if cleaned_part \<noteq> [] then set_add (str_title cleaned_part) locations
         else locations)"

definition address_parts :: "string \<Rightarrow> string list" where
  \<comment> \<open>lines 39 to 42: the postal codes removed, then the stripped pieces between commas\<close>
  "address_parts addr =
     (let addr' = remove_postal False addr
      in map str_strip (split_on CHR '','' addr'))"

definition add_address :: "string \<Rightarrow> string list \<Rightarrow> string list" where
  \<comment> \<open>the body of the outer loop\<close>
  "add_address addr locations = fold add_part (address_parts addr) locations"

definition get_cleaned_locations :: "db \<Rightarrow> string list" where
  "get_cleaned_locations d =
     (let addresses = remdups (map address (outlets d))
      in fold add_address addresses [])"

section \<open>The matchers and the Query Normalizer\<close>

text \<open>
  The fuzzy scores and the stop-word set come from libraries outside the repository, so
  they are parameters: \<open>pr\<close> is \<^verbatim>\<open>fuzz.partial_ratio\<close>, \<open>sc\<close> is the score that
  \<^verbatim>\<open>process.extractOne\<close> gives a query and a choice with its default scorer and
  processor, and \<open>sw\<close> is \<^verbatim>\<open>STOP_WORDS\<close>.

  \<^verbatim>\<open>process.extractOne(query, choices)\<close> scores every choice, keeps those that reach the
  default cutoff 0, and returns the first pair with the greatest score, or \<^verbatim>\<open>None\<close> when
  no pair is left. \<^verbatim>\<open>py_max\<close> is Python's \<^verbatim>\<open>max\<close> with a key: the running best is
  replaced only by a strictly greater score.
\<close>

datatype error = TypeError

fun py_max :: "(string \<times> int) \<Rightarrow> (string \<times> int) list \<Rightarrow> (string \<times> int)" where
  "py_max best [] = best"
| "py_max best (x # xs) = py_max (if snd best < snd x then x else best) xs"

definition extractWithoutOrder ::
  "(string \<Rightarrow> string \<Rightarrow> int) \<Rightarrow> string \<Rightarrow> string list \<Rightarrow> (string \<times> int) list" where
  "extractWithoutOrder sc query choices =
     filter (\<lambda>(choice, score). 0 \<le> score) (map (\<lambda>choice. (choice, sc query choice)) choices)"

definition extractOne ::
  "(string \<Rightarrow> string \<Rightarrow> int) \<Rightarrow> string \<Rightarrow> string list \<Rightarrow> (string \<times> int) option" where
  "extractOne sc query choices =
     (case extractWithoutOrder sc query choices of
        [] \<Rightarrow> None
      | x # xs \<Rightarrow> Some (py_max x xs))"

text \<open>
  \<^verbatim>\<open>match, score = process.extractOne(...)\<close> raises \<^verbatim>\<open>TypeError\<close> when the call
  returns \<^verbatim>\<open>None\<close>. The result \<open>Inr None\<close> is the no-match of the matcher.
\<close>

definition extract_location ::
  "(string \<Rightarrow> string \<Rightarrow> int) \<Rightarrow> string list \<Rightarrow> string \<Rightarrow> error + string option" where
  "extract_location sc locations query =
     (case extractOne sc (str_title query) locations of
        None \<Rightarrow> Inl TypeError
      | Some (match, score) \<Rightarrow> Inr (if 80 < score then Some match else None))"

definition add_keyword ::
  "(string \<Rightarrow> string \<Rightarrow> int) \<Rightarrow> string \<Rightarrow> string \<Rightarrow> string \<Rightarrow> string list \<Rightarrow> string list" where
  \<comment> \<open>the body of the inner loop of \<^verbatim>\<open>extract_category\<close>\<close>
  "add_keyword pr query cat keyword cats =
     (if 80 < pr query keyword then set_add cat cats else cats)"

definition extract_category :: "(string \<Rightarrow> string \<Rightarrow> int) \<Rightarrow> string \<Rightarrow> string list" where
  "extract_category pr query =
     fold (\<lambda>(cat, keywords) cats. fold (add_keyword pr query cat) keywords cats)
          OUTLET_CATEGORIES []"

definition preprocess_query :: "string set \<Rightarrow> string \<Rightarrow> string" where
  "preprocess_query sw query =
     str_strip (str_join '' '' (filter (\<lambda>word. word \<notin> sw) (str_split (str_lower query))))"

section \<open>The outlet lookups of \<^verbatim>\<open>main.py\<close>\<close>

text \<open>
  A response is the dictionary an endpoint returns: either the key \<^verbatim>\<open>outlets\<close> with a
  list of rows, or the key \<^verbatim>\<open>message\<close> with a text. The join
  \<^verbatim>\<open>SELECT o.* FROM outlets o JOIN categories c ON ... WHERE ...\<close> returns one copy of
  an outlet row for every category row that passes the conditions with it: \<open>join_rows\<close>
  is the nested scan of the two tables. The theorems below count rows and do not depend on
  the order of the scan.
\<close>

datatype response = Outlets "outlet list" | Message string

definition join_rows ::
  "(outlet \<Rightarrow> category_row \<Rightarrow> bool) \<Rightarrow> outlet list \<Rightarrow> category_row list \<Rightarrow> outlet list" where
  "join_rows cond os cs = concat (map (\<lambda>ot. map (\<lambda>c. ot) (filter (cond ot) cs)) os)"

definition get_outlet_by_category_and_location :: "db \<Rightarrow> string \<Rightarrow> string \<Rightarrow> response" where
  "get_outlet_by_category_and_location d cats location =
     (let category_list = split_on CHR '','' cats;
          pattern = ''%'' @ str_lower location @ ''%'';
          params = map str_lower category_list
      in Outlets
           (join_rows (\<lambda>ot c.
              id_col ot = outlet_id c
              \<and> sql_like (str_lower pattern) (str_lower (address ot))
              \<and> (category_list = [] \<or> str_lower (category c) \<in> set params))
              (outlets d) (categories d)))"

definition get_outlets_by_location :: "db \<Rightarrow> string \<Rightarrow> response" where
  "get_outlets_by_location d location =
     (let pattern = ''%'' @ str_lower location @ ''%'';
          rows = filter (\<lambda>ot. sql_like pattern (str_lower (address ot))) (outlets d)
      in if rows \<noteq> [] then Outlets rows
         else Message ''No outlets found in this location.'')"

definition get_outlets_by_category :: "db \<Rightarrow> string list \<Rightarrow> response" where
  "get_outlets_by_category d cats =
     (if cats = [] then Outlets []
      else Outlets (remdups
           (join_rows (\<lambda>ot c.
              id_col ot = outlet_id c \<and> str_lower (category c) \<in> set (map str_lower cats))
              (outlets d) (categories d))))"

section \<open>The Response Formatter and the Query Router\<close>

definition outlet_block :: "outlet \<Rightarrow> string" where
  \<comment> \<open>the text one turn of the formatter's loop appends\<close>
  "outlet_block ot =
     str_strip (name ot) @ [CHR 0x0A] @ str_strip (address ot) @ [CHR 0x0A, CHR 0x0A]"

definition process_outlets_to_message :: "response \<Rightarrow> response" where
  "process_outlets_to_message r =
     (let outlet_list = (case r of Outlets os \<Rightarrow> os | Message _ \<Rightarrow> [])
      in if outlet_list = [] then Message ''No outlets found for your request.''
         else Message
           (fold (\<lambda>ot message. message @ outlet_block ot) outlet_list
                 (''Here are the outlets I found:'' @ [CHR 0x0A, CHR 0x0A])
            @ ''If you need more information, please let me know!''))"

definition help_message :: string where
  "help_message =
     ''Sorry, I can'' @ [CHR 0x27] @ ''t find results for your request.''
     @ '' If you think you made a mistake, please try again.'' @ [CHR 0x0A]
     @ ''Please try something like:'' @ [CHR 0x0A]
     @ ''- '' @ [CHR 0x27] @ ''Which outlets are 24 hours?'' @ [CHR 0x27, CHR 0x0A]
     @ ''- '' @ [CHR 0x27] @ ''Which outlets are in Bukit Bintang?'' @ [CHR 0x27, CHR 0x0A]
     @ ''- '' @ [CHR 0x27] @ ''Which 24-hour outlets are in Bukit Bintang?'' @ [CHR 0x27]"

text \<open>
  In the router \<open>loc\<close> is the location with \<^verbatim>\<open>None\<close> read as the empty string: both are
  false in Python's conditions, so the three tests select the branches the source selects.
\<close>

definition chatbot_query ::
  "string set \<Rightarrow> (string \<Rightarrow> string \<Rightarrow> int) \<Rightarrow> (string \<Rightarrow> string \<Rightarrow> int) \<Rightarrow> string list
     \<Rightarrow> db \<Rightarrow> string \<Rightarrow> error + response" where
  "chatbot_query sw pr sc locations d raw =
     (let query = str_lower raw;
          query = preprocess_query sw query;
          cats = extract_category pr query
      in case extract_location sc locations query of
           Inl e \<Rightarrow> Inl e
         | Inr location \<Rightarrow>
             (let loc = (case location of None \<Rightarrow> [] | Some l \<Rightarrow> l)
              in if cats \<noteq> [] \<and> loc \<noteq> [] then
                   Inr (process_outlets_to_message
                          (get_outlet_by_category_and_location d (str_join '','' cats) loc))
                 else if cats \<noteq> [] then
                   Inr (process_outlets_to_message (get_outlets_by_category d cats))
                 else if loc \<noteq> [] then
                   Inr (process_outlets_to_message (get_outlets_by_location d loc))
                 else Inr (Message help_message)))"

section \<open>Notions of the specification\<close>

text \<open>
  The words of the specification that the theorems below compare the code with:
  containment of a substring without regard to ASCII case, an outlet carrying a category, a
  string being title-cased, and a string holding a five-digit token (five digits with no
  word character directly before or after them; the flag says that a word character
  stands before the string).
\<close>

fun prefix_ci :: "string \<Rightarrow> string \<Rightarrow> bool" where
  "prefix_ci [] s = True"
| "prefix_ci (p # ps) [] = False"
| "prefix_ci (p # ps) (c # cs) = (lower_c p = lower_c c \<and> prefix_ci ps cs)"

fun contains_ci :: "string \<Rightarrow> string \<Rightarrow> bool" where
  "contains_ci sub [] = (sub = [])"
| "contains_ci sub (c # cs) = (prefix_ci sub (c # cs) \<or> contains_ci sub cs)"






fun has_postal_token :: "bool \<Rightarrow> string \<Rightarrow> bool" where
  "has_postal_token prev [] = False"
| "has_postal_token prev (c # cs) =
     ((\<not> prev \<and> digits_then_boundary 5 (c # cs)) \<or> has_postal_token (isword_c c) cs)"


text \<open>
  A sample scorer for concrete inputs, standing in for the library's scores: 100 when the
  second string occurs in the first without regard to case, and 0 otherwise.
\<close>

definition contains_score :: "string \<Rightarrow> string \<Rightarrow> int" where
  "contains_score query choice = (if contains_ci choice query then 100 else 0)"

section \<open>The Response Formatter\<close>

lemma fold_append_blocks:
  "fold (\<lambda>x message. message @ f x) xs acc = acc @ concat (map f xs)"
  by (induction xs arbitrary: acc) simp_all

text \<open>
  C7: the formatter answers an empty list (and the message form a lookup can return instead
  of a list) with the fixed text "No outlets found for your request."; for a list that is
  not empty it returns the header line, then for each outlet in the order of the list its
  trimmed name, a line feed, its trimmed address and two line feeds, then the trailer.
\<close>

theorem process_outlets_to_message_spec:
  "process_outlets_to_message (Message m) = Message ''No outlets found for your request.''
   \<and> process_outlets_to_message (Outlets os) =
       (if os = [] then Message ''No outlets found for your request.''
        else Message (''Here are the outlets I found:'' @ [CHR 0x0A, CHR 0x0A]
               @ concat (map (\<lambda>ot. str_strip (name ot) @ [CHR 0x0A]
                                    @ str_strip (address ot) @ [CHR 0x0A, CHR 0x0A]) os)
               @ ''If you need more information, please let me know!''))"
  by (simp add: process_outlets_to_message_def fold_append_blocks outlet_block_def)

theorem process_outlets_to_message_witness:
  "process_outlets_to_message
     (Outlets [\<lparr>id_col = 1, name = '' Bangsar '', address = ''Jalan Telawi ''\<rparr>])
   = Message (''Here are the outlets I found:'' @ [CHR 0x0A, CHR 0x0A]
       @ ''Bangsar'' @ [CHR 0x0A] @ ''Jalan Telawi'' @ [CHR 0x0A, CHR 0x0A]
       @ ''If you need more information, please let me know!'')"
proof -
  have n: "str_strip '' Bangsar '' = ''Bangsar''" by code_simp
  have a: "str_strip ''Jalan Telawi '' = ''Jalan Telawi''" by code_simp
  from process_outlets_to_message_spec
    [of "[]" "[\<lparr>id_col = 1, name = '' Bangsar '', address = ''Jalan Telawi ''\<rparr>]"]
  show ?thesis by (simp add: n a)
qed

section \<open>The Category Matcher\<close>

lemma set_set_add: "set (set_add x xs) = insert x (set xs)"
  by (auto simp: set_add_def)

lemma distinct_set_add: "distinct xs \<Longrightarrow> distinct (set_add x xs)"
  by (simp add: set_add_def)

lemma set_fold_add_keyword:
  "set (fold (add_keyword pr q cat) kws acc) =
     set acc \<union> (if \<exists>k\<in>set kws. 80 < pr q k then {cat} else {})"
  by (induction kws arbitrary: acc) (auto simp: add_keyword_def set_set_add)

lemma distinct_fold_add_keyword:
  "distinct acc \<Longrightarrow> distinct (fold (add_keyword pr q cat) kws acc)"
  by (induction kws arbitrary: acc) (simp_all add: add_keyword_def distinct_set_add)

lemma set_fold_categories:
  "set (fold (\<lambda>(cat, keywords) cats. fold (add_keyword pr q cat) keywords cats) tab acc) =
     set acc \<union> {cat. \<exists>kws. (cat, kws) \<in> set tab \<and> (\<exists>k\<in>set kws. 80 < pr q k)}"
proof (induction tab arbitrary: acc)
  case Nil
  show ?case by simp
next
  case (Cons row tab)
  obtain cat kws where row: "row = (cat, kws)" by (cases row)
  show ?case
    unfolding row by (simp add: Cons.IH set_fold_add_keyword) blast
qed

lemma distinct_fold_categories:
  "distinct acc \<Longrightarrow>
   distinct (fold (\<lambda>(cat, keywords) cats. fold (add_keyword pr q cat) keywords cats) tab acc)"
  by (induction tab arbitrary: acc) (auto simp: distinct_fold_add_keyword)

lemma set_extract_category:
  "set (extract_category pr query) =
     {cat. \<exists>kws. (cat, kws) \<in> set OUTLET_CATEGORIES \<and> (\<exists>k\<in>set kws. 80 < pr query k)}"
  by (simp add: extract_category_def set_fold_categories)

lemma extract_category_none: "extract_category (\<lambda>q k. 0) query = []"
  by (simp add: extract_category_def OUTLET_CATEGORIES_def add_keyword_def)

lemma extract_category_two:
  "extract_category (\<lambda>q k. if k = ''wifi'' \<or> k = ''24 hours'' then 100 else 0) query
     = [''24 Hours'', ''WiFi'']"
  by (simp add: extract_category_def OUTLET_CATEGORIES_def add_keyword_def set_add_def)

text \<open>
  C4: for every query and every partial-ratio scorer, the Category Matcher returns exactly
  the labels of the Category Vocabulary that have a keyword whose partial ratio with the
  query is greater than 80, without duplicates; the result can be empty, and it can hold
  more than one label.
\<close>

theorem extract_category_spec:
  "set (extract_category pr query) =
     {cat. \<exists>kws. (cat, kws) \<in> set OUTLET_CATEGORIES \<and> (\<exists>k\<in>set kws. 80 < pr query k)}
   \<and> distinct (extract_category pr query)
   \<and> (\<exists>pr0. extract_category pr0 query = [])
   \<and> (\<exists>pr2. 1 < length (extract_category pr2 query))"
proof (intro conjI)
  show "set (extract_category pr query) =
     {cat. \<exists>kws. (cat, kws) \<in> set OUTLET_CATEGORIES \<and> (\<exists>k\<in>set kws. 80 < pr query k)}"
    by (rule set_extract_category)
  show "distinct (extract_category pr query)"
    by (simp add: extract_category_def distinct_fold_categories)
  show "\<exists>pr0. extract_category pr0 query = []"
    using extract_category_none by blast
  have "1 < length (extract_category
      (\<lambda>q k. if k = ''wifi'' \<or> k = ''24 hours'' then 100 else 0) query)"
    by (simp add: extract_category_two)
  then show "\<exists>pr2. 1 < length (extract_category pr2 query)" by blast
qed

theorem extract_category_witness:
  "set (extract_category (\<lambda>q k. if k = ''wifi'' \<or> k = ''24 hours'' then 100 else 0)
         ''24 hours wifi'') = {''24 Hours'', ''WiFi''}
   \<and> distinct (extract_category (\<lambda>q k. if k = ''wifi'' \<or> k = ''24 hours'' then 100 else 0)
         ''24 hours wifi'')"
proof -
  have s: "set (extract_category (\<lambda>q k. if k = ''wifi'' \<or> k = ''24 hours'' then 100 else 0)
         ''24 hours wifi'') = {''24 Hours'', ''WiFi''}"
    by (simp add: extract_category_two)
  from extract_category_spec
    [of "\<lambda>q k. if k = ''wifi'' \<or> k = ''24 hours'' then 100 else 0" "''24 hours wifi''"]
  show ?thesis using s by blast
qed

section \<open>The Location Matcher\<close>

lemma py_max_mem: "py_max b xs \<in> set (b # xs)"
  by (induction xs arbitrary: b) auto

lemma py_max_greatest: "x \<in> set (b # xs) \<Longrightarrow> snd x \<le> snd (py_max b xs)"
proof (induction xs arbitrary: b x)
  case Nil
  then show ?case by simp
next
  case (Cons y ys)
  let ?c = "if snd b < snd y then y else b"
  have c: "snd b \<le> snd ?c" "snd y \<le> snd ?c" by auto
  have best: "snd ?c \<le> snd (py_max ?c ys)" by (rule Cons.IH) simp
  from Cons.prems consider "x = b" | "x = y" | "x \<in> set ys" by auto
  then have "snd x \<le> snd (py_max ?c ys)"
  proof cases
    case 1
    with c(1) best show ?thesis by simp
  next
    case 2
    with c(2) best show ?thesis by simp
  next
    case 3
    then have "x \<in> set (?c # ys)" by simp
    then show ?thesis by (rule Cons.IH)
  qed
  then show ?case by simp
qed

lemma extractOne_empty: "extractOne sc query [] = None"
  by (simp add: extractOne_def extractWithoutOrder_def)

lemma extract_location_empty: "extract_location sc [] query = Inl TypeError"
  by (simp add: extract_location_def extractOne_empty)

text \<open>
  On a vocabulary that is not empty, with scores that are never negative, the matcher
  returns at most one entry of the vocabulary: an entry with the greatest score when that
  score is above 80, and no-match otherwise.
\<close>

lemma extract_location_nonempty:
  assumes "locations \<noteq> []" and "\<forall>l\<in>set locations. 0 \<le> sc (str_title query) l"
  shows "\<exists>m\<in>set locations.
           (\<forall>l\<in>set locations. sc (str_title query) l \<le> sc (str_title query) m)
           \<and> extract_location sc locations query =
               Inr (if 80 < sc (str_title query) m then Some m else None)"
proof -
  let ?q = "str_title query"
  let ?ps = "map (\<lambda>choice. (choice, sc ?q choice)) locations"
  have keep: "extractWithoutOrder sc ?q locations = ?ps"
    unfolding extractWithoutOrder_def using assms(2) by (induction locations) auto
  from assms(1) obtain x xs where ps: "?ps = x # xs" by (cases locations) auto
  let ?b = "py_max x xs"
  have mem: "?b \<in> set ?ps" using py_max_mem [of x xs] ps by simp
  then have b: "fst ?b \<in> set locations" "snd ?b = sc ?q (fst ?b)" by auto
  have great: "sc ?q l \<le> snd ?b" if "l \<in> set locations" for l
  proof -
    from that have "(l, sc ?q l) \<in> set (x # xs)" using ps by (metis (no_types, lifting) image_eqI list.set_map)
    from py_max_greatest [OF this] show ?thesis by simp
  qed
  obtain m s where ms: "?b = (m, s)" by (cases ?b)
  with b have m: "m \<in> set locations" "s = sc ?q m" by simp_all
  have "extract_location sc locations query = Inr (if 80 < sc ?q m then Some m else None)"
    using m(2) by (simp add: extract_location_def extractOne_def keep ps ms)
  moreover have "\<forall>l\<in>set locations. sc ?q l \<le> sc ?q m"
    using great ms m(2) by simp
  ultimately show ?thesis using m(1) by blast
qed

text \<open>
  C3: the Location Matcher on the empty vocabulary. The claim asks for no-match there; the
  code raises, since \<^verbatim>\<open>process.extractOne\<close> returns \<^verbatim>\<open>None\<close> and the source unpacks it.
\<close>

theorem extract_location_empty_vocabulary:
  "extract_location contains_score [] ''bangsar'' = Inl TypeError"
  by (simp add: extract_location_def extractOne_def extractWithoutOrder_def)

section \<open>The Query Router\<close>





section \<open>Facts about the character classes\<close>

lemma of_char_lower_c:
  "(of_char (lower_c c) :: nat) = (if isupper_c c then of_char c + 32 else of_char c)"
  by (simp add: lower_c_def isupper_c_def)

lemma of_char_upper_c:
  "(of_char (upper_c c) :: nat) = (if islower_c c then of_char c - 32 else of_char c)"
proof (cases "islower_c c")
  case True
  have "(of_char c :: nat) - 32 < 256"
    using nat_of_char_less_256 [of c] by (rule less_imp_diff_less)
  then have "((of_char c :: nat) - 32) mod 256 = of_char c - 32" by (rule mod_less)
  with True show ?thesis by (simp add: upper_c_def)
next
  case False
  then show ?thesis by (simp add: upper_c_def)
qed

lemma char_eq_by_code: "(of_char a :: nat) = of_char b \<Longrightarrow> a = b"
  by simp

lemma lower_c_idem: "lower_c (lower_c c) = lower_c c"
  by (rule char_eq_by_code) (simp add: of_char_lower_c isupper_c_def)




lemma isspace_upper_c: "isspace_c (upper_c c) = isspace_c c"
  by (auto simp add: isspace_c_def of_char_upper_c islower_c_def)












section \<open>Facts about the string primitives\<close>

lemma length_title_from: "length (title_from p s) = length s"
  by (induction s arbitrary: p) simp_all















section \<open>The Location Vocabulary Builder: words and elements\<close>










lemma set_fold_add_part:
  "set (fold add_part parts acc) =
     set acc \<union> {str_title (clean_part p) | p. p \<in> set parts \<and> clean_part p \<noteq> []}"
  by (induction parts arbitrary: acc) (auto simp: add_part_def Let_def set_set_add)


lemma set_add_address:
  "set (add_address a acc) =
     set acc \<union> {str_title (clean_part p) | p. p \<in> set (address_parts a) \<and> clean_part p \<noteq> []}"
  by (simp add: add_address_def set_fold_add_part)

lemma set_fold_add_address:
  "set (fold add_address as acc) =
     set acc \<union> {str_title (clean_part p) | p a.
                  a \<in> set as \<and> p \<in> set (address_parts a) \<and> clean_part p \<noteq> []}"
proof (induction as arbitrary: acc)
  case Nil
  show ?case by simp
next
  case (Cons a as)
  show ?case
    by (simp add: Cons.IH set_add_address) blast
qed


lemma set_get_cleaned_locations:
  "set (get_cleaned_locations d) =
     {str_title (clean_part p) | p a.
        a \<in> address ` set (outlets d) \<and> p \<in> set (address_parts a) \<and> clean_part p \<noteq> []}"
  by (simp add: get_cleaned_locations_def Let_def set_fold_add_address)






section \<open>The empty vocabulary\<close>

lemma get_cleaned_locations_empty:
  assumes "\<forall>ot\<in>set (outlets d). \<forall>p\<in>set (address_parts (address ot)). clean_part p = []"
  shows "get_cleaned_locations d = []"
proof -
  from assms have "set (get_cleaned_locations d) = {}"
    unfolding set_get_cleaned_locations by auto
  then show ?thesis by simp
qed

text \<open>
  C9: when the Location Vocabulary is empty, the Location Matcher raises for every query
  instead of returning no-match, and so does the entry point; the vocabulary is empty when
  the store holds no address, or when every part of every address cleans to the empty
  string.
\<close>

theorem empty_vocabulary_raises:
  "(get_cleaned_locations d0 = []
    \<longrightarrow> extract_location sc (get_cleaned_locations d0) query = Inl TypeError
        \<and> chatbot_query sw pr sc (get_cleaned_locations d0) d raw = Inl TypeError)
   \<and> ((\<forall>ot\<in>set (outlets d0). \<forall>p\<in>set (address_parts (address ot)). clean_part p = [])
        \<longrightarrow> get_cleaned_locations d0 = [])"
proof (intro conjI impI)
  assume e: "get_cleaned_locations d0 = []"
  show "extract_location sc (get_cleaned_locations d0) query = Inl TypeError"
    by (simp add: e extract_location_empty)
  show "chatbot_query sw pr sc (get_cleaned_locations d0) d raw = Inl TypeError"
    by (simp add: e extract_location_empty chatbot_query_def)
next
  assume "\<forall>ot\<in>set (outlets d0). \<forall>p\<in>set (address_parts (address ot)). clean_part p = []"
  then show "get_cleaned_locations d0 = []" by (rule get_cleaned_locations_empty)
qed

theorem empty_vocabulary_raises_witness:
  "address_parts ''Jalan, 50000'' = [''Jalan'', []]
   \<and> clean_part ''Jalan'' = [] \<and> clean_part [] = []
   \<and> get_cleaned_locations
        \<lparr>outlets = [\<lparr>id_col = 1, name = ''A'', address = ''Jalan, 50000''\<rparr>], categories = []\<rparr>
       = []
   \<and> chatbot_query {} (\<lambda>q k. 0) (\<lambda>q c. 100)
        (get_cleaned_locations
           \<lparr>outlets = [\<lparr>id_col = 1, name = ''A'', address = ''Jalan, 50000''\<rparr>],
            categories = []\<rparr>)
        \<lparr>outlets = [\<lparr>id_col = 1, name = ''A'', address = ''Jalan, 50000''\<rparr>], categories = []\<rparr>
        ''jalan'' = Inl TypeError"
proof -
  let ?d = "\<lparr>outlets = [\<lparr>id_col = 1, name = ''A'', address = ''Jalan, 50000''\<rparr>],
             categories = []\<rparr>"
  have a: "address_parts ''Jalan, 50000'' = [''Jalan'', []]" by code_simp
  have c1: "clean_part ''Jalan'' = []" by code_simp
  have c2: "clean_part [] = []" by code_simp
  from a c1 c2
  have h: "\<forall>ot\<in>set (outlets ?d). \<forall>p\<in>set (address_parts (address ot)). clean_part p = []"
    by simp
  from empty_vocabulary_raises [of ?d "\<lambda>q c. 100" "[]" "{}" "\<lambda>q k. 0" ?d "''jalan''"]
  have i1: "get_cleaned_locations ?d = []
    \<longrightarrow> chatbot_query {} (\<lambda>q k. 0) (\<lambda>q c. 100) (get_cleaned_locations ?d) ?d ''jalan''
        = Inl TypeError"
    and i2: "(\<forall>ot\<in>set (outlets ?d). \<forall>p\<in>set (address_parts (address ot)). clean_part p = [])
        \<longrightarrow> get_cleaned_locations ?d = []"
    by blast+
  from i2 h have e: "get_cleaned_locations ?d = []" by (rule mp)
  from i1 e have r: "chatbot_query {} (\<lambda>q k. 0) (\<lambda>q c. 100) (get_cleaned_locations ?d) ?d
      ''jalan'' = Inl TypeError"
    by (rule mp)
  from a c1 c2 e r show ?thesis by (intro conjI)
qed

section \<open>What the matchers receive\<close>






section \<open>The pattern match of the lookups\<close>







lemma lower_c_wildcard: "(lower_c c = CHR ''%'') = (c = CHR ''%'')" "(lower_c c = CHR ''_'') = (c = CHR ''_'')"
proof -
  have a: "(of_char CHR ''%'' :: nat) = 37" "(of_char CHR ''_'' :: nat) = 95" by simp_all
  have e: "\<And>x y. (x = y) = ((of_char x :: nat) = of_char y)" by simp
  show "(lower_c c = CHR ''%'') = (c = CHR ''%'')"
    unfolding e [of "lower_c c"] e [of c] a
    by (auto simp: of_char_lower_c isupper_c_def)
  show "(lower_c c = CHR ''_'') = (c = CHR ''_'')"
    unfolding e [of "lower_c c"] e [of c] a
    by (auto simp: of_char_lower_c isupper_c_def)
qed



lemma like_pattern_lower:
  "str_lower (''%'' @ str_lower loc @ ''%'') = ''%'' @ str_lower loc @ ''%''"
proof -
  have "lower_c CHR ''%'' = CHR ''%''" by (simp add: lower_c_wildcard)
  then show ?thesis by (simp add: str_lower_def lower_c_idem)
qed


section \<open>The joins of the lookups\<close>

lemma split_on_nonempty: "split_on d s \<noteq> []"
  by (induction s) (simp_all split: list.splits)

lemma split_on_no_sep: "d \<notin> set w \<Longrightarrow> split_on d w = [w]"
  by (induction w) auto

lemma split_on_append: "d \<notin> set w \<Longrightarrow> split_on d (w @ d # rest) = w # split_on d rest"
  by (induction w) auto

lemma split_on_join_sep:
  "sep = [d] \<Longrightarrow> ws \<noteq> [] \<Longrightarrow> \<forall>w\<in>set ws. d \<notin> set w
   \<Longrightarrow> split_on d (str_join sep ws) = ws"
proof (induction sep ws rule: str_join.induct)
  case 1
  then show ?case by simp
next
  case (2 w)
  then show ?case by (simp add: split_on_no_sep)
next
  case (3 sep w v ws)
  then have "split_on d (w @ d # str_join sep (v # ws)) = w # split_on d (str_join sep (v # ws))"
    by (intro split_on_append) simp
  with 3 show ?case by simp
qed

lemma split_on_join:
  "ws \<noteq> [] \<Longrightarrow> \<forall>w\<in>set ws. d \<notin> set w \<Longrightarrow> split_on d (str_join [d] ws) = ws"
  by (rule split_on_join_sep) simp_all





lemma category_keys_comma_free:
  "\<forall>(cat, kws)\<in>set OUTLET_CATEGORIES. CHR '','' \<notin> set cat"
  by (simp add: OUTLET_CATEGORIES_def)

lemma extract_category_comma_free:
  "cat \<in> set (extract_category pr query) \<Longrightarrow> CHR '','' \<notin> set cat"
  unfolding set_extract_category using category_keys_comma_free by blast

lemma split_join_extract_category:
  "extract_category pr query \<noteq> [] \<Longrightarrow>
   split_on CHR '','' (str_join '','' (extract_category pr query)) = extract_category pr query"
  by (rule split_on_join) (auto dest: extract_category_comma_free)

lemma get_outlet_by_category_and_location_rows:
  "get_outlet_by_category_and_location d cats location =
     Outlets (join_rows (\<lambda>ot c.
        id_col ot = outlet_id c
        \<and> sql_like (''%'' @ str_lower location @ ''%'') (str_lower (address ot))
        \<and> str_lower (category c) \<in> set (map str_lower (split_on CHR '','' cats)))
        (outlets d) (categories d))"
  unfolding get_outlet_by_category_and_location_def Let_def like_pattern_lower
  by (simp add: split_on_nonempty)

text \<open>
  Python fixes no order for the elements of the category set. The lookups depend on the
  set of the labels only, so the order in which the model lists them does not matter.
\<close>

lemma both_lookup_order_irrelevant:
  assumes "cl \<noteq> []" and "\<forall>c\<in>set cl. CHR '','' \<notin> set c"
    and "cl' \<noteq> []" and "\<forall>c\<in>set cl'. CHR '','' \<notin> set c" and "set cl = set cl'"
  shows "get_outlet_by_category_and_location d (str_join '','' cl) loc
         = get_outlet_by_category_and_location d (str_join '','' cl') loc"
proof -
  have "split_on CHR '','' (str_join '','' cl) = cl"
    using assms(1,2) by (intro split_on_join)
  moreover have "split_on CHR '','' (str_join '','' cl') = cl'"
    using assms(3,4) by (intro split_on_join)
  ultimately show ?thesis
    by (simp add: get_outlet_by_category_and_location_rows assms(5))
qed

lemma any_lookup_order_irrelevant:
  assumes "set cl = set cl'"
  shows "get_outlets_by_category d cl = get_outlets_by_category d cl'"
proof -
  from assms have "(cl = []) = (cl' = [])" by auto
  with assms show ?thesis by (simp add: get_outlets_by_category_def)
qed














section \<open>The notions of the specification, in words\<close>

text \<open>
  \<open>contains_ci\<close> is containment of a substring up to ASCII case, and
  \<open>has_postal_token\<close> is the presence of exactly five digits between two places where no
  word character adjoins.
\<close>

lemma prefix_ci_iff:
  "prefix_ci p s \<longleftrightarrow> (\<exists>m post. s = m @ post \<and> str_lower m = str_lower p)"
proof (induction p s rule: prefix_ci.induct)
  case (1 s)
  show ?case by (simp add: str_lower_def)
next
  case (2 p ps)
  show ?case by (simp add: str_lower_def)
next
  case (3 p ps c cs)
  show ?case
  proof
    assume "prefix_ci (p # ps) (c # cs)"
    then have l: "lower_c p = lower_c c" and "prefix_ci ps cs" by simp_all
    then obtain m post where "cs = m @ post" "str_lower m = str_lower ps"
      unfolding 3 by blast
    with l have "c # cs = (c # m) @ post \<and> str_lower (c # m) = str_lower (p # ps)"
      by (simp add: str_lower_def)
    then show "\<exists>m post. c # cs = m @ post \<and> str_lower m = str_lower (p # ps)" by blast
  next
    assume "\<exists>m post. c # cs = m @ post \<and> str_lower m = str_lower (p # ps)"
    then obtain m post where e: "c # cs = m @ post" "str_lower m = str_lower (p # ps)"
      by blast
    from e(2) obtain x m' where m: "m = x # m'" by (cases m) (auto simp: str_lower_def)
    with e have "x = c" "cs = m' @ post" "lower_c c = lower_c p" "str_lower m' = str_lower ps"
      by (simp_all add: str_lower_def)
    then have "prefix_ci ps cs" unfolding 3 by blast
    with \<open>lower_c c = lower_c p\<close> show "prefix_ci (p # ps) (c # cs)" by simp
  qed
qed

lemma contains_ci_iff:
  "contains_ci p s \<longleftrightarrow> (\<exists>pre m post. s = pre @ m @ post \<and> str_lower m = str_lower p)"
proof (induction s)
  case Nil
  show ?case by (cases p) (auto simp: str_lower_def)
next
  case (Cons c cs)
  show ?case
  proof
    assume "contains_ci p (c # cs)"
    then consider "prefix_ci p (c # cs)" | "contains_ci p cs" by auto
    then show "\<exists>pre m post. c # cs = pre @ m @ post \<and> str_lower m = str_lower p"
    proof cases
      case 1
      then obtain m post where "c # cs = [] @ m @ post \<and> str_lower m = str_lower p"
        unfolding prefix_ci_iff by auto
      then show ?thesis by blast
    next
      case 2
      then obtain pre m post where "cs = pre @ m @ post" "str_lower m = str_lower p"
        unfolding Cons.IH by blast
      then have "c # cs = (c # pre) @ m @ post \<and> str_lower m = str_lower p" by simp
      then show ?thesis by blast
    qed
  next
    assume "\<exists>pre m post. c # cs = pre @ m @ post \<and> str_lower m = str_lower p"
    then obtain pre m post where e: "c # cs = pre @ m @ post" "str_lower m = str_lower p"
      by blast
    show "contains_ci p (c # cs)"
    proof (cases pre)
      case Nil
      with e have "prefix_ci p (c # cs)" unfolding prefix_ci_iff by auto
      then show ?thesis by simp
    next
      case (Cons x pre')
      with e have "cs = pre' @ m @ post" by simp
      with e(2) have "contains_ci p cs" unfolding Cons.IH by blast
      then show ?thesis by simp
    qed
  qed
qed

section \<open>Five-digit tokens\<close>





lemma hpt_mono: "has_postal_token p s \<Longrightarrow> has_postal_token False s"
  by (cases s) auto












lemma dtb_iff:
  "digits_then_boundary n s \<longleftrightarrow>
     (\<exists>ds b. s = ds @ b \<and> length ds = n \<and> (\<forall>c\<in>set ds. isdigit_c c)
             \<and> (b = [] \<or> \<not> isword_c (hd b)))"
proof (induction n arbitrary: s)
  case 0
  show ?case by (cases s) auto
next
  case (Suc n)
  show ?case
  proof (cases s)
    case Nil
    then show ?thesis by simp
  next
    case (Cons c cs)
    show ?thesis
    proof
      assume "digits_then_boundary (Suc n) s"
      with Cons have d: "isdigit_c c" and r: "digits_then_boundary n cs" by simp_all
      from r obtain ds b where "cs = ds @ b" "length ds = n" "\<forall>c\<in>set ds. isdigit_c c"
        "b = [] \<or> \<not> isword_c (hd b)"
        unfolding Suc.IH by blast
      with d Cons have "s = (c # ds) @ b \<and> length (c # ds) = Suc n
          \<and> (\<forall>x\<in>set (c # ds). isdigit_c x) \<and> (b = [] \<or> \<not> isword_c (hd b))"
        by simp
      then show "\<exists>ds b. s = ds @ b \<and> length ds = Suc n \<and> (\<forall>c\<in>set ds. isdigit_c c)
             \<and> (b = [] \<or> \<not> isword_c (hd b))"
        by blast
    next
      assume "\<exists>ds b. s = ds @ b \<and> length ds = Suc n \<and> (\<forall>c\<in>set ds. isdigit_c c)
             \<and> (b = [] \<or> \<not> isword_c (hd b))"
      then obtain ds b where e: "s = ds @ b" "length ds = Suc n" "\<forall>c\<in>set ds. isdigit_c c"
        "b = [] \<or> \<not> isword_c (hd b)"
        by blast
      from e(2) obtain x ds' where ds: "ds = x # ds'" "length ds' = n"
        by (auto simp: length_Suc_conv)
      with e Cons have "x = c" "cs = ds' @ b" "isdigit_c c" "\<forall>c\<in>set ds'. isdigit_c c"
        by simp_all
      with ds(2) e(4) have "digits_then_boundary n cs" unfolding Suc.IH by blast
      with \<open>isdigit_c c\<close> Cons show "digits_then_boundary (Suc n) s" by simp
    qed
  qed
qed

lemma has_postal_token_iff:
  "has_postal_token prev s \<longleftrightarrow>
     (\<exists>a ds b. s = a @ ds @ b \<and> length ds = 5 \<and> (\<forall>c\<in>set ds. isdigit_c c)
        \<and> (if a = [] then \<not> prev else \<not> isword_c (last a))
        \<and> (b = [] \<or> \<not> isword_c (hd b)))"
  (is "_ \<longleftrightarrow> ?R prev s")
proof (induction s arbitrary: prev)
  case Nil
  show ?case by simp
next
  case (Cons c cs)
  show ?case
  proof
    assume "has_postal_token prev (c # cs)"
    then consider "\<not> prev" "digits_then_boundary 5 (c # cs)"
      | "has_postal_token (isword_c c) cs"
      by (auto simp del: digits_then_boundary.simps)
    then show "?R prev (c # cs)"
    proof cases
      case 1
      from 1(2) obtain ds b where "c # cs = ds @ b" "length ds = 5" "\<forall>c\<in>set ds. isdigit_c c"
        "b = [] \<or> \<not> isword_c (hd b)"
        unfolding dtb_iff by blast
      with 1(1) have "c # cs = [] @ ds @ b \<and> length ds = 5 \<and> (\<forall>c\<in>set ds. isdigit_c c)
        \<and> (if ([]::string) = [] then \<not> prev else \<not> isword_c (last []))
        \<and> (b = [] \<or> \<not> isword_c (hd b))"
        by simp
      then show ?thesis by blast
    next
      case 2
      then obtain a ds b where e: "cs = a @ ds @ b" "length ds = 5" "\<forall>c\<in>set ds. isdigit_c c"
        "if a = [] then \<not> isword_c c else \<not> isword_c (last a)"
        "b = [] \<or> \<not> isword_c (hd b)"
        unfolding Cons.IH by blast
      then have "c # cs = (c # a) @ ds @ b \<and> length ds = 5 \<and> (\<forall>c\<in>set ds. isdigit_c c)
        \<and> (if c # a = [] then \<not> prev else \<not> isword_c (last (c # a)))
        \<and> (b = [] \<or> \<not> isword_c (hd b))"
        by (simp split: if_splits)
      then show ?thesis by blast
    qed
  next
    assume "?R prev (c # cs)"
    then obtain a ds b where e: "c # cs = a @ ds @ b" "length ds = 5"
      "\<forall>c\<in>set ds. isdigit_c c" "if a = [] then \<not> prev else \<not> isword_c (last a)"
      "b = [] \<or> \<not> isword_c (hd b)"
      by blast
    show "has_postal_token prev (c # cs)"
    proof (cases a)
      case Nil
      with e have "\<not> prev" and "digits_then_boundary 5 (c # cs)"
        unfolding dtb_iff by auto
      then show ?thesis by (simp del: digits_then_boundary.simps)
    next
      case (Cons x a')
      with e have "cs = a' @ ds @ b" "x = c"
        "if a' = [] then \<not> isword_c c else \<not> isword_c (last a')"
        by (simp_all split: if_splits)
      with e(2,3,5) have "?R (isword_c c) cs" by blast
      then have "has_postal_token (isword_c c) cs" unfolding Cons.IH .
      then show ?thesis by (simp del: digits_then_boundary.simps)
    qed
  qed
qed














end
